theory Spec2Isabelle
  imports Complex_Main "HOL-Library.Sublist"
begin

section \<open>The filtered-dataframe example (save\_filtered\_df.ipynb)\<close>

text \<open>
  The notebook defines two callbacks over the sample table \<open>autompg\<close> and two widgets:
  \<^verbatim>\<open>
  @pn.depends(years, mpg)
  def filtered_mpg(yrs, mpg):
      df = autompg
      if years.value:
          df = autompg[autompg.yr.isin(yrs)]
      return df[(df.mpg >= mpg[0]) & (df.mpg <= mpg[1])]

  @pn.depends(years, mpg)
  def filtered_file(yr, mpg):
      df = filtered_mpg(yr, mpg)
      sio = StringIO()
      df.to_csv(sio)
      sio.seek(0)
      return sio
  \<close>
  Both functions read module-level names: the table \<open>autompg\<close> and, in the guard of
  \<open>filtered_mpg\<close>, the widget object \<open>years\<close>. These are the fields of the record
  \<open>globals\<close>, which every function takes and hands back.
\<close>

subsection \<open>Rows, columns and masks\<close>

text \<open>
  A row of the table carries its index label and the two columns the code reads; every
  other column of the table lives in the extension part of the record. The \<open>mpg\<close> column
  holds numbers without missing values, compared as numbers.
\<close>

record row =
  idx :: int
  yr :: int
  mpg :: real

datatype error = IndexError

text \<open>Subscripting a tuple with a non-negative literal, \<open>t[i]\<close>.\<close>

definition tuple_getitem :: "'a list \<Rightarrow> nat \<Rightarrow> error + 'a" where
  "tuple_getitem t i = (if i < length t then Inr (t ! i) else Inl IndexError)"

text \<open>\<open>column.isin(values)\<close>: one truth value per entry of the column.\<close>

definition isin :: "int list \<Rightarrow> int list \<Rightarrow> bool list" where
  "isin column vals = map (\<lambda>v. v \<in> set vals) column"

text \<open>\<open>column >= x\<close> and \<open>column <= x\<close>.\<close>

definition col_ge :: "real list \<Rightarrow> real \<Rightarrow> bool list" where
  "col_ge column x = map (\<lambda>v. v \<ge> x) column"

definition col_le :: "real list \<Rightarrow> real \<Rightarrow> bool list" where
  "col_le column x = map (\<lambda>v. v \<le> x) column"

text \<open>\<open>m1 & m2\<close> on two masks over the same rows.\<close>

definition mask_and :: "bool list \<Rightarrow> bool list \<Rightarrow> bool list" where
  "mask_and m1 m2 = map (\<lambda>(a, b). a \<and> b) (zip m1 m2)"

text \<open>\<open>df[mask]\<close>: a new frame holding the rows whose mask entry is true, in order.\<close>

definition getitem_mask :: "'r list \<Rightarrow> bool list \<Rightarrow> 'r list" where
  "getitem_mask df msk = map fst (filter snd (zip df msk))"

subsection \<open>Module state\<close>

record 'a globals =
  autompg :: "'a row_scheme list"
  years_value :: "int list"

subsection \<open>filtered\_mpg\<close>

text \<open>
  The parameter \<open>mpg\<close> of the source is called \<open>rng\<close> here, since \<open>mpg\<close> is also the
  column. It is a tuple, subscripted at 0 and 1. The guard reads \<open>years.value\<close>, which
  is true for a non-empty list; the membership test uses the argument \<open>yrs\<close>.
\<close>

definition filtered_mpg ::
  "'a globals \<Rightarrow> int list \<Rightarrow> real list \<Rightarrow> (error + 'a row_scheme list) \<times> 'a globals" where
  "filtered_mpg g yrs rng =
     (let df = autompg g;
          df = (if years_value g \<noteq> []
                then getitem_mask (autompg g) (isin (map yr (autompg g)) yrs)
                else df)
      in case tuple_getitem rng 0 of
           Inl e \<Rightarrow> (Inl e, g)
         | Inr lo \<Rightarrow>
             (case tuple_getitem rng 1 of
                Inl e \<Rightarrow> (Inl e, g)
              | Inr hi \<Rightarrow>
                  (Inr (getitem_mask df
                         (mask_and (col_ge (map mpg df) lo) (col_le (map mpg df) hi))), g)))"

subsection \<open>filtered\_file\<close>

text \<open>
  An in-memory text stream: its contents and the position of the next read or write.
  Writing overwrites from the position on and moves it past the text written.
\<close>

record stringio =
  buf :: string
  pos :: nat

definition StringIO :: stringio where
  "StringIO = \<lparr>buf = [], pos = 0\<rparr>"

definition sio_write :: "stringio \<Rightarrow> string \<Rightarrow> stringio" where
  "sio_write s txt =
     \<lparr>buf = take (pos s) (buf s) @ replicate (pos s - length (buf s)) (CHR 0x00)
            @ txt @ drop (pos s + length txt) (buf s),
      pos = pos s + length txt\<rparr>"

definition sio_seek :: "stringio \<Rightarrow> nat \<Rightarrow> stringio" where
  "sio_seek s n = s\<lparr>pos := n\<rparr>"

text \<open>
  \<open>df.to_csv(sio)\<close> writes the CSV text of the frame to the stream. The rendering of a
  frame as CSV text belongs to the dataframe library; it is the parameter \<open>csv\<close>.
\<close>

definition to_csv :: "('r list \<Rightarrow> string) \<Rightarrow> 'r list \<Rightarrow> stringio \<Rightarrow> stringio" where
  "to_csv csv df sio = sio_write sio (csv df)"

definition filtered_file ::
  "('a row_scheme list \<Rightarrow> string) \<Rightarrow> 'a globals \<Rightarrow> int list \<Rightarrow> real list
     \<Rightarrow> (error + stringio) \<times> 'a globals" where
  "filtered_file csv g yr' rng =
     (case filtered_mpg g yr' rng of
        (Inl e, g') \<Rightarrow> (Inl e, g')
      | (Inr df, g') \<Rightarrow>
          (let sio = StringIO;
               sio = to_csv csv df sio;
               sio = sio_seek sio 0
           in (Inr sio, g')))"

subsection \<open>Example data\<close>

definition car_a :: row where
  "car_a = \<lparr>idx = 0, yr = 70, mpg = 18\<rparr>"

definition car_b :: row where
  "car_b = \<lparr>idx = 1, yr = 71, mpg = 25\<rparr>"

definition car_c :: row where
  "car_c = \<lparr>idx = 2, yr = 70, mpg = 30\<rparr>"

definition cars :: "int list \<Rightarrow> unit globals" where
  "cars sel = \<lparr>autompg = [car_a, car_b, car_c], years_value = sel\<rparr>"

section \<open>Properties\<close>

subsection \<open>Masks select like a filter\<close>

lemma getitem_mask_map: "getitem_mask df (map P df) = filter P df"
  by (induction df) (simp_all add: getitem_mask_def)

lemma mask_and_map: "mask_and (map P xs) (map Q xs) = map (\<lambda>x. P x \<and> Q x) xs"
  by (induction xs) (simp_all add: mask_and_def)

lemma isin_yr: "isin (map yr df) yrs = map (\<lambda>r. yr r \<in> set yrs) df"
  by (simp add: isin_def)

lemma range_mask:
  "mask_and (col_ge (map mpg df) lo) (col_le (map mpg df) hi)
     = map (\<lambda>r. lo \<le> mpg r \<and> mpg r \<le> hi) df"
  by (induction df) (simp_all add: mask_and_def col_ge_def col_le_def)

lemma tuple_getitem_pair:
  "tuple_getitem [lo, hi] 0 = Inr lo" "tuple_getitem [lo, hi] (Suc 0) = Inr hi"
  by (simp_all add: tuple_getitem_def)

text \<open>The result on a range pair, as one filter over the table.\<close>

lemma filtered_mpg_pair:
  "filtered_mpg g yrs [lo, hi]
     = (Inr (filter (\<lambda>r. (years_value g = [] \<or> yr r \<in> set yrs) \<and> lo \<le> mpg r \<and> mpg r \<le> hi)
               (autompg g)), g)"
  by (cases "years_value g = []")
     (simp_all add: filtered_mpg_def Let_def tuple_getitem_pair isin_yr range_mask
        getitem_mask_map)

text \<open>A tuple that is too short makes the subscript raise.\<close>

lemma filtered_mpg_short_tuple:
  "length rng < 2 \<Longrightarrow> fst (filtered_mpg g yrs rng) = Inl IndexError"
  by (cases rng) (auto simp: filtered_mpg_def Let_def tuple_getitem_def)

lemma count_list_filter_le: "count_list (filter P xs) r \<le> count_list xs r"
  by (induction xs) simp_all

subsection \<open>Which rows are returned\<close>

text \<open>
  Claim C1, as stated: for every selection of years, every range pair and every row of the
  table, the row is in the output of \<open>filtered_mpg\<close> exactly when its \<open>yr\<close> is in the
  selection and its \<open>mpg\<close> lies within the bounds. With nothing selected the guard
  \<open>if years.value\<close> skips the membership test, so the row of year 70 is returned although
  70 is not in the empty selection.
\<close>

theorem filtered_mpg_conjunctive_counterexample:
  "fst (filtered_mpg (cars []) [] [10, 40]) = Inr [car_a, car_b, car_c]
   \<and> \<not> (car_a \<in> set [car_a, car_b, car_c]
          \<longleftrightarrow> yr car_a \<in> set [] \<and> 10 \<le> mpg car_a \<and> mpg car_a \<le> 40)"
  by (simp add: filtered_mpg_pair cars_def car_a_def car_b_def car_c_def)

text \<open>
  Claim C1, amended: when the years widget holds the selection that is passed as \<open>yrs\<close>,
  a row of the table is in the output of \<open>filtered_mpg\<close> exactly when the selection is
  empty or contains the row's \<open>yr\<close>, and the row's \<open>mpg\<close> lies within the bounds.
\<close>

theorem filtered_mpg_membership:
  assumes "years_value g = yrs" and "r \<in> set (autompg g)"
  shows "\<exists>out. fst (filtered_mpg g yrs [lo, hi]) = Inr out
           \<and> (r \<in> set out \<longleftrightarrow> (yrs = [] \<or> yr r \<in> set yrs) \<and> lo \<le> mpg r \<and> mpg r \<le> hi)"
  using assms by (simp add: filtered_mpg_pair)

theorem filtered_mpg_membership_witness:
  "years_value (cars [70]) = [70] \<and> car_a \<in> set (autompg (cars [70]))
   \<and> car_b \<in> set (autompg (cars [70]))
   \<and> (\<exists>out. fst (filtered_mpg (cars [70]) [70] [10, 40]) = Inr out
          \<and> car_a \<in> set out \<and> car_b \<notin> set out)"
proof -
  have sel: "years_value (cars [70]) = [70]"
    by (simp add: cars_def)
  have a: "car_a \<in> set (autompg (cars [70]))" and b: "car_b \<in> set (autompg (cars [70]))"
    by (simp_all add: cars_def)
  from filtered_mpg_membership [OF sel a, of 10 40]
  obtain out where out: "fst (filtered_mpg (cars [70]) [70] [10, 40]) = Inr out"
    and in_a: "car_a \<in> set out"
    by (auto simp: car_a_def)
  from filtered_mpg_membership [OF sel b, of 10 40] out
  have "car_b \<notin> set out"
    by (auto simp: car_b_def)
  with sel a b out in_a show ?thesis
    by blast
qed

subsection \<open>The downloaded text\<close>

text \<open>
  Claim C2: for every selection of years and every range pair, the stream returned by
  \<open>filtered_file\<close> holds exactly the CSV text of the frame that \<open>filtered_mpg\<close> returns
  for the same arguments, and is positioned at its start.
\<close>

theorem filtered_file_csv:
  "\<exists>df. fst (filtered_mpg g yrs [lo, hi]) = Inr df
        \<and> fst (filtered_file csv g yrs [lo, hi]) = Inr \<lparr>buf = csv df, pos = 0\<rparr>"
  by (simp add: filtered_file_def filtered_mpg_pair StringIO_def to_csv_def sio_write_def
      sio_seek_def)

subsection \<open>Dependence on the widget\<close>

text \<open>
  Claim C3: two calls of \<open>filtered_mpg\<close> with equal arguments over the same table return
  equal results, whatever the years widget holds. The guard reads \<open>years.value\<close> instead
  of the argument \<open>yrs\<close>: called with \<open>yrs = [70]\<close> while the widget is empty, the function
  returns the rows of every year; with the widget holding \<open>[70]\<close> it returns the rows of
  year 70 only.
\<close>

theorem filtered_mpg_reads_widget:
  "autompg (cars []) = autompg (cars [70])
   \<and> fst (filtered_mpg (cars []) [70] [10, 40]) = Inr [car_a, car_b, car_c]
   \<and> fst (filtered_mpg (cars [70]) [70] [10, 40]) = Inr [car_a, car_c]"
  by (simp add: filtered_mpg_pair cars_def car_a_def car_b_def car_c_def)

subsection \<open>No error outcome\<close>

text \<open>
  Claim C4: for every selection of years and every range pair, \<open>filtered_mpg\<close> returns a
  frame and raises nothing; the frame is empty exactly when no row of the table meets the
  predicates, and is then an ordinary return value.
\<close>

theorem filtered_mpg_returns:
  "\<exists>out. fst (filtered_mpg g yrs [lo, hi]) = Inr out
         \<and> (out = [] \<longleftrightarrow>
              (\<forall>r \<in> set (autompg g).
                 \<not> ((years_value g = [] \<or> yr r \<in> set yrs) \<and> lo \<le> mpg r \<and> mpg r \<le> hi)))"
  by (simp add: filtered_mpg_pair filter_empty_conv)

theorem filtered_mpg_returns_witness:
  "fst (filtered_mpg (cars [72]) [72] [10, 40]) = Inr []"
proof -
  from filtered_mpg_returns [of "cars [72]" "[72]" 10 40]
  obtain out where out: "fst (filtered_mpg (cars [72]) [72] [10, 40]) = Inr out"
    and empty: "out = [] \<longleftrightarrow>
      (\<forall>r \<in> set (autompg (cars [72])).
         \<not> ((years_value (cars [72]) = [] \<or> yr r \<in> set [72]) \<and> 10 \<le> mpg r \<and> mpg r \<le> 40))"
    by blast
  have "\<forall>r \<in> set (autompg (cars [72])).
         \<not> ((years_value (cars [72]) = [] \<or> yr r \<in> set [72]) \<and> 10 \<le> mpg r \<and> mpg r \<le> 40)"
    by (simp add: cars_def car_a_def car_b_def car_c_def)
  with empty out show ?thesis
    by simp
qed

subsection \<open>Idempotence\<close>

text \<open>
  Claim C5: for every selection of years and every range pair, running the filter again,
  with the same control values, on the frame it returned gives that frame back.
\<close>

theorem filtered_mpg_idempotent:
  "\<exists>out. fst (filtered_mpg g yrs [lo, hi]) = Inr out
         \<and> fst (filtered_mpg (g\<lparr>autompg := out\<rparr>) yrs [lo, hi]) = Inr out"
proof -
  let ?keep = "\<lambda>r. (years_value g = [] \<or> yr r \<in> set yrs) \<and> lo \<le> mpg r \<and> mpg r \<le> hi"
  let ?out = "filter ?keep (autompg g)"
  have once: "fst (filtered_mpg g yrs [lo, hi]) = Inr ?out"
    by (simp add: filtered_mpg_pair)
  have "fst (filtered_mpg (g\<lparr>autompg := ?out\<rparr>) yrs [lo, hi]) = Inr (filter ?keep ?out)"
    by (simp add: filtered_mpg_pair)
  also have "filter ?keep ?out = ?out"
    by simp
  finally have "fst (filtered_mpg (g\<lparr>autompg := ?out\<rparr>) yrs [lo, hi]) = Inr ?out" .
  with once show ?thesis
    by blast
qed

subsection \<open>Inclusive bounds\<close>

text \<open>
  Claim C6: the range test is inclusive at both ends. A row that passes the year stage is
  returned exactly when \<open>lo \<le> mpg\<close> and \<open>mpg \<le> hi\<close>; in particular a row whose \<open>mpg\<close> equals
  the lower or the upper bound of a range \<open>lo \<le> hi\<close> is kept.
\<close>

theorem filtered_mpg_range_inclusive:
  assumes "r \<in> set (autompg g)" and "years_value g = [] \<or> yr r \<in> set yrs"
  shows "\<exists>out. fst (filtered_mpg g yrs [lo, hi]) = Inr out
           \<and> (r \<in> set out \<longleftrightarrow> lo \<le> mpg r \<and> mpg r \<le> hi)
           \<and> (lo \<le> hi \<and> mpg r = lo \<longrightarrow> r \<in> set out)
           \<and> (lo \<le> hi \<and> mpg r = hi \<longrightarrow> r \<in> set out)"
  using assms by (auto simp: filtered_mpg_pair)

theorem filtered_mpg_range_inclusive_witness:
  "car_a \<in> set (autompg (cars [70])) \<and> car_c \<in> set (autompg (cars [70]))
   \<and> yr car_a \<in> set [70] \<and> yr car_c \<in> set [70]
   \<and> mpg car_a = 18 \<and> mpg car_c = 30
   \<and> (\<exists>out. fst (filtered_mpg (cars [70]) [70] [18, 30]) = Inr out
          \<and> car_a \<in> set out \<and> car_c \<in> set out)"
proof -
  have a: "car_a \<in> set (autompg (cars [70]))" and c: "car_c \<in> set (autompg (cars [70]))"
    by (simp_all add: cars_def)
  have ya: "years_value (cars [70]) = [] \<or> yr car_a \<in> set [70]"
    and yc: "years_value (cars [70]) = [] \<or> yr car_c \<in> set [70]"
    by (simp_all add: car_a_def car_c_def)
  from filtered_mpg_range_inclusive [OF a ya, of 18 30]
  obtain out where out: "fst (filtered_mpg (cars [70]) [70] [18, 30]) = Inr out"
    and in_a: "car_a \<in> set out"
    by (auto simp: car_a_def)
  from filtered_mpg_range_inclusive [OF c yc, of 18 30] out
  have "car_c \<in> set out"
    by (auto simp: car_c_def)
  with a c out in_a show ?thesis
    by (auto simp: car_a_def car_c_def)
qed

subsection \<open>The table is only read\<close>

text \<open>
  Claim C7: for every selection of years and every range, \<open>filtered_mpg\<close> and
  \<open>filtered_file\<close> leave the module state, and so the table \<open>autompg\<close>, as they found it;
  the frame returned is computed anew by each call, so a second call gives the same
  result.
\<close>

theorem dataset_unchanged:
  "snd (filtered_mpg g yrs rng) = g \<and> snd (filtered_file csv g yrs rng) = g
   \<and> autompg (snd (filtered_mpg g yrs rng)) = autompg g
   \<and> autompg (snd (filtered_file csv g yrs rng)) = autompg g
   \<and> fst (filtered_mpg (snd (filtered_mpg g yrs rng)) yrs rng) = fst (filtered_mpg g yrs rng)"
proof -
  have m: "snd (filtered_mpg g yrs rng) = g"
    by (simp add: filtered_mpg_def Let_def split: sum.splits)
  have f: "snd (filtered_file csv g yrs rng) = g"
    using m by (auto simp: filtered_file_def Let_def split: prod.splits sum.splits)
  from m f show ?thesis
    by simp
qed

subsection \<open>Nothing selected\<close>

text \<open>
  Claim C8: when the value of the years widget is empty, the membership test is skipped:
  \<open>filtered_mpg\<close> returns every row of the table whose \<open>mpg\<close> lies within the bounds.
\<close>

theorem empty_selection_keeps_all_years:
  "years_value g = [] \<Longrightarrow>
     fst (filtered_mpg g yrs [lo, hi]) = Inr (filter (\<lambda>r. lo \<le> mpg r \<and> mpg r \<le> hi) (autompg g))"
  by (simp add: filtered_mpg_pair)

theorem empty_selection_keeps_all_years_witness:
  "years_value (cars []) = [] \<and> fst (filtered_mpg (cars []) [] [10, 25]) = Inr [car_a, car_b]"
proof -
  have e: "years_value (cars []) = []"
    by (simp add: cars_def)
  from empty_selection_keeps_all_years [OF e, of "[]" 10 25] e show ?thesis
    by (simp add: cars_def car_a_def car_b_def car_c_def)
qed

subsection \<open>Order and multiplicity\<close>

text \<open>
  Claim C9: for every selection of years and every range pair, the output of
  \<open>filtered_mpg\<close> is an order-preserving subsequence of the table: every output row is a
  row of the table, no row occurs more often than in the table (so distinct index labels
  stay distinct), and the rows keep their relative order.
\<close>

theorem filtered_mpg_subseq:
  "\<exists>out. fst (filtered_mpg g yrs [lo, hi]) = Inr out
         \<and> subseq out (autompg g)
         \<and> set out \<subseteq> set (autompg g)
         \<and> count_list out r \<le> count_list (autompg g) r
         \<and> (distinct (map idx (autompg g)) \<longrightarrow> distinct (map idx out))
         \<and> (distinct (autompg g) \<longrightarrow> distinct out)"
proof -
  let ?keep = "\<lambda>r. (years_value g = [] \<or> yr r \<in> set yrs) \<and> lo \<le> mpg r \<and> mpg r \<le> hi"
  let ?out = "filter ?keep (autompg g)"
  have res: "fst (filtered_mpg g yrs [lo, hi]) = Inr ?out"
    by (simp add: filtered_mpg_pair)
  have order: "subseq ?out (autompg g)"
    by (rule subseq_filter_left)
  have rows: "set ?out \<subseteq> set (autompg g)"
    by auto
  have mult: "count_list ?out r \<le> count_list (autompg g) r"
    by (rule count_list_filter_le)
  have labels: "distinct (map idx (autompg g)) \<longrightarrow> distinct (map idx ?out)"
    by (simp add: distinct_map_filter)
  have dist: "distinct (autompg g) \<longrightarrow> distinct ?out"
    by simp
  from res order rows mult labels dist show ?thesis
    by blast
qed

theorem filtered_mpg_subseq_witness:
  "distinct (map idx (autompg (cars [70]))) \<and> distinct (autompg (cars [70]))
   \<and> (\<exists>out. fst (filtered_mpg (cars [70]) [70] [10, 40]) = Inr out
          \<and> subseq out [car_a, car_b, car_c] \<and> distinct (map idx out) \<and> distinct out)"
proof -
  have d: "distinct (map idx (autompg (cars [70])))" and d': "distinct (autompg (cars [70]))"
    by (simp_all add: cars_def car_a_def car_b_def car_c_def)
  have t: "autompg (cars [70]) = [car_a, car_b, car_c]"
    by (simp add: cars_def)
  from filtered_mpg_subseq [of "cars [70]" "[70]" 10 40] d d' t show ?thesis
    by auto
qed

subsection \<open>Monotonicity\<close>

text \<open>
  Claim C10: the filter is monotone in its controls. For two selections \<open>S1\<close> and \<open>S2\<close>
  held by the widget and passed to the function, with \<open>S1\<close> non-empty and contained in
  \<open>S2\<close>, and two ranges with \<open>[lo1, hi1]\<close> inside \<open>[lo2, hi2]\<close>, every row returned for
  \<open>(S1, (lo1, hi1))\<close> is returned for \<open>(S2, (lo2, hi2))\<close> over the same table.
\<close>

theorem filtered_mpg_monotone:
  assumes "years_value g1 = S1" and "years_value g2 = S2" and "autompg g1 = autompg g2"
    and "S1 \<noteq> []" and "set S1 \<subseteq> set S2" and "lo2 \<le> lo1" and "hi1 \<le> hi2"
  shows "\<exists>out1 out2. fst (filtered_mpg g1 S1 [lo1, hi1]) = Inr out1
           \<and> fst (filtered_mpg g2 S2 [lo2, hi2]) = Inr out2
           \<and> set out1 \<subseteq> set out2"
  using assms by (auto simp: filtered_mpg_pair)

theorem filtered_mpg_monotone_witness:
  "years_value (cars [70]) = [70] \<and> years_value (cars [70, 71]) = [70, 71]
   \<and> autompg (cars [70]) = autompg (cars [70, 71])
   \<and> [70] \<noteq> ([] :: int list) \<and> set [70] \<subseteq> set [70, 71 :: int]
   \<and> (10 :: real) \<le> 18 \<and> (25 :: real) \<le> 40
   \<and> (\<exists>out1 out2. fst (filtered_mpg (cars [70]) [70] [18, 25]) = Inr out1
          \<and> fst (filtered_mpg (cars [70, 71]) [70, 71] [10, 40]) = Inr out2
          \<and> set out1 \<subseteq> set out2)"
proof -
  have h1: "years_value (cars [70]) = [70]" and h2: "years_value (cars [70, 71]) = [70, 71]"
    and h3: "autompg (cars [70]) = autompg (cars [70, 71])"
    by (simp_all add: cars_def)
  have h4: "[70] \<noteq> ([] :: int list)" and h5: "set [70] \<subseteq> set [70, 71 :: int]"
    and h6: "(10 :: real) \<le> 18" and h7: "(25 :: real) \<le> 40"
    by simp_all
  from filtered_mpg_monotone [OF h1 h2 h3 h4 h5 h6 h7] h1 h2 h3 show ?thesis
    by simp
qed

end
